theory Spec2Isabelle
  imports Main
begin

section \<open>Rows, request schemas and errors\<close>

text \<open>
  The two tables hold user rows and note rows. The columns are the ones that
  \<^verbatim>\<open>app/crud.py\<close> reads and writes and that the response schemas of
  \<^verbatim>\<open>app/schemas.py\<close> list. The timestamp columns (\<^verbatim>\<open>created_at\<close>, \<^verbatim>\<open>updated_at\<close>) are
  maintained by the store alone, no function of \<^verbatim>\<open>app/crud.py\<close> touches them, and they
  are left out. Python integers are unbounded, so ids are \<open>int\<close>.

  A column of a note row that an update may set holds \<open>None\<close> for SQL NULL:
  \<^verbatim>\<open>NoteUpdate\<close> declares its fields \<^verbatim>\<open>Optional[...] = None\<close>, and
  \<^verbatim>\<open>dict(exclude_unset=True)\<close> keeps a field that the request sets to null.
\<close>

record User =
  user_id :: int
  email :: string
  username :: string
  hashed_password :: string
  is_active :: bool

record Note =
  note_id :: int
  title :: "string option"
  content :: "string option"
  is_public :: "bool option"
  owner_id :: int

text \<open>\<^verbatim>\<open>class UserCreate(UserBase)\<close>: email, username, password.\<close>

record UserCreate =
  c_email :: string
  c_username :: string
  c_password :: string

text \<open>
  \<^verbatim>\<open>class NoteCreate(NoteBase)\<close>: title, content and is_public (default False, filled in
  when the request is parsed). The schema has no owner field.
\<close>

record NoteCreate =
  c_title :: string
  c_content :: string
  c_is_public :: bool

text \<open>
  \<^verbatim>\<open>class NoteUpdate(BaseModel)\<close>: three independently optional fields. The outer
  \<open>option\<close> is presence in the request (\<open>None\<close>: the field is unset and
  \<^verbatim>\<open>exclude_unset\<close> drops it); the inner one is the value, \<open>None\<close> being an explicit null.
\<close>

record NoteUpdate =
  u_title :: "string option option"
  u_content :: "string option option"
  u_is_public :: "bool option option"

text \<open>
  What a request can end with instead of a result: an \<^verbatim>\<open>HTTPException\<close> with its status
  code and detail, as \<^verbatim>\<open>app/crud.py\<close> and \<^verbatim>\<open>app/routers/notes.py\<close> raise it; the
  rejection of a request without a valid identity; and the rejection of a query parameter
  outside the bounds of its \<^verbatim>\<open>Query(...)\<close> declaration; and the answer to an exception
  that no handler catches.
\<close>

datatype api_error =
  HTTPException int string
  | Unauthenticated
  | RequestValidationError
  | InternalServerError

datatype db_error = IntegrityError

datatype query_error = OutOfRange

section \<open>The store\<close>

text \<open>
  The database behind the SQLAlchemy session: the rows of both tables in storage order, and
  the two sequences that hand out the surrogate ids.
\<close>

record db =
  tbl_users :: "User list"
  tbl_notes :: "Note list"
  users_id_seq :: int
  notes_id_seq :: int

definition empty_db :: db where
  "empty_db = \<lparr>tbl_users = [], tbl_notes = [], users_id_seq = 1, notes_id_seq = 1\<rparr>"

text \<open>
  Modelled from the spec: the table declarations of \<^verbatim>\<open>app/models.py\<close> are not among the
  sources. The persisted schema is two tables with surrogate integer ids, uniqueness
  constraints on the email and on the username of a user, and a foreign key from the owner
  of a note to the id of a user. Whatever else the declarations demand of a note row
  (NOT NULL columns, CHECK constraints) is the parameter \<open>note_ok\<close>.
\<close>

definition constraints :: "(Note \<Rightarrow> bool) \<Rightarrow> db \<Rightarrow> bool" where
  "constraints note_ok d \<longleftrightarrow>
     distinct (map user_id (tbl_users d)) \<and>
     distinct (map email (tbl_users d)) \<and>
     distinct (map username (tbl_users d)) \<and>
     distinct (map note_id (tbl_notes d)) \<and>
     list_all (\<lambda>n. owner_id n \<in> set (map user_id (tbl_users d)) \<and> note_ok n) (tbl_notes d)"

text \<open>
  \<^verbatim>\<open>db.commit()\<close> on the pending state of the unit of work: the store takes the state when
  it satisfies the constraints and raises \<^verbatim>\<open>IntegrityError\<close> otherwise. The caller's
  \<^verbatim>\<open>db.rollback()\<close> then discards the pending state, which is why every function below
  returns the state it was given next to an error.
\<close>

definition commit :: "(Note \<Rightarrow> bool) \<Rightarrow> db \<Rightarrow> db_error + db" where
  "commit note_ok pending =
     (if constraints note_ok pending then Inr pending else Inl IntegrityError)"

text \<open>
  Modelled from the spec: ids are assigned by the store at creation. Each sequence holds the
  next id it hands out, so every id in a table lies below its sequence. A rolled back
  insert gives its id back here, where a database sequence would skip it; the statements
  below hold with gaps in the ids as well, since they ask of the sequences only \<open>seq_ok\<close>.
\<close>

definition seq_ok :: "db \<Rightarrow> bool" where
  "seq_ok d \<longleftrightarrow>
     list_all (\<lambda>u. user_id u < users_id_seq d) (tbl_users d) \<and>
     list_all (\<lambda>n. note_id n < notes_id_seq d) (tbl_notes d)"

definition db_ok :: "(Note \<Rightarrow> bool) \<Rightarrow> db \<Rightarrow> bool" where
  "db_ok note_ok d \<longleftrightarrow> constraints note_ok d \<and> seq_ok d"

section \<open>User operations of app/crud.py\<close>

definition get_user_by_email :: "db \<Rightarrow> string \<Rightarrow> User option" where
  "get_user_by_email d e = find (\<lambda>u. email u = e) (tbl_users d)"

definition get_user_by_username :: "db \<Rightarrow> string \<Rightarrow> User option" where
  "get_user_by_username d name = find (\<lambda>u. username u = name) (tbl_users d)"

text \<open>
  \<^verbatim>\<open>create_user\<close>. The password hasher of \<^verbatim>\<open>app/auth.py\<close> is not among the sources and is
  the parameter \<open>get_password_hash\<close>. The row is built from the email, the username and the
  hash; its id comes from the sequence. Modelled from the spec: a registered user is
  active (the default of the column, declared in \<^verbatim>\<open>app/models.py\<close>).
\<close>

definition create_user ::
  "(string \<Rightarrow> string) \<Rightarrow> (Note \<Rightarrow> bool) \<Rightarrow> db \<Rightarrow> UserCreate \<Rightarrow> (api_error + User) \<times> db" where
  "create_user get_password_hash note_ok d u =
     (if get_user_by_email d (c_email u) \<noteq> None
      then (Inl (HTTPException 400 ''Email already registered''), d)
      else if get_user_by_username d (c_username u) \<noteq> None
      then (Inl (HTTPException 400 ''Username already taken''), d)
      else
        let hashed = get_password_hash (c_password u);
            db_user = \<lparr>user_id = users_id_seq d, email = c_email u,
                       username = c_username u, hashed_password = hashed,
                       is_active = True\<rparr>
        in case commit note_ok
                  (d\<lparr>tbl_users := tbl_users d @ [db_user], users_id_seq := users_id_seq d + 1\<rparr>) of
             Inr d' \<Rightarrow> (Inr db_user, d')
           | Inl IntegrityError \<Rightarrow>
               (Inl (HTTPException 400 ''User creation failed due to constraint violation''), d))"

section \<open>Note operations of app/crud.py\<close>

text \<open>\<^verbatim>\<open>.first()\<close> is the first row in storage order that passes the filter.\<close>

definition get_note :: "db \<Rightarrow> int \<Rightarrow> int \<Rightarrow> Note option" where
  "get_note d nid uid = find (\<lambda>n. note_id n = nid \<and> owner_id n = uid) (tbl_notes d)"

definition get_public_note :: "db \<Rightarrow> int \<Rightarrow> Note option" where
  "get_public_note d nid = find (\<lambda>n. note_id n = nid \<and> is_public n = Some True) (tbl_notes d)"

text \<open>
  \<^verbatim>\<open>.offset(skip).limit(limit).all()\<close>. The two bounds are natural numbers here: the only
  callers are the list endpoints, which reject a negative \<^verbatim>\<open>skip\<close> and a \<^verbatim>\<open>limit\<close> below 1
  before they call. The store takes both as signed 64-bit integers, while a Python integer
  has no upper bound: with a larger one the query fails in the store, and neither function
  catches that.
\<close>

definition int64_max :: int where
  "int64_max = 2 ^ 63 - 1"

definition get_user_notes :: "db \<Rightarrow> int \<Rightarrow> nat \<Rightarrow> nat \<Rightarrow> query_error + Note list" where
  "get_user_notes d uid skip limit =
     (if int skip \<le> int64_max \<and> int limit \<le> int64_max
      then Inr (take limit (drop skip (filter (\<lambda>n. owner_id n = uid) (tbl_notes d))))
      else Inl OutOfRange)"

definition get_public_notes :: "db \<Rightarrow> nat \<Rightarrow> nat \<Rightarrow> query_error + Note list" where
  "get_public_notes d skip limit =
     (if int skip \<le> int64_max \<and> int limit \<le> int64_max
      then Inr (take limit (drop skip (filter (\<lambda>n. is_public n = Some True) (tbl_notes d))))
      else Inl OutOfRange)"

text \<open>
  \<^verbatim>\<open>create_note\<close>: \<^verbatim>\<open>Note(**note.dict(), owner_id=user_id)\<close>, then add, commit, refresh.
\<close>

definition create_note ::
  "(Note \<Rightarrow> bool) \<Rightarrow> db \<Rightarrow> NoteCreate \<Rightarrow> int \<Rightarrow> (api_error + Note) \<times> db" where
  "create_note note_ok d n uid =
     (let db_note = \<lparr>note_id = notes_id_seq d, title = Some (c_title n),
                      content = Some (c_content n), is_public = Some (c_is_public n),
                      owner_id = uid\<rparr>
      in case commit note_ok
                (d\<lparr>tbl_notes := tbl_notes d @ [db_note], notes_id_seq := notes_id_seq d + 1\<rparr>) of
           Inr d' \<Rightarrow> (Inr db_note, d')
         | Inl IntegrityError \<Rightarrow> (Inl (HTTPException 400 ''Note creation failed''), d))"

text \<open>
  The loop \<^verbatim>\<open>for field, value in update_data.items(): setattr(db_note, field, value)\<close> over
  \<^verbatim>\<open>note_update.dict(exclude_unset=True)\<close>: a field that is set replaces the attribute, an
  unset field is not in the dictionary.
\<close>

definition setattrs :: "NoteUpdate \<Rightarrow> Note \<Rightarrow> Note" where
  "setattrs upd n =
     n\<lparr>title := (case u_title upd of None \<Rightarrow> title n | Some v \<Rightarrow> v),
       content := (case u_content upd of None \<Rightarrow> content n | Some v \<Rightarrow> v),
       is_public := (case u_is_public upd of None \<Rightarrow> is_public n | Some v \<Rightarrow> v)\<rparr>"

text \<open>
  \<^verbatim>\<open>update_note\<close>. The commit writes the changed attributes to the row with the primary
  key of \<^verbatim>\<open>db_note\<close>; the refresh reads that row back.
\<close>

definition update_note ::
  "(Note \<Rightarrow> bool) \<Rightarrow> db \<Rightarrow> int \<Rightarrow> NoteUpdate \<Rightarrow> int \<Rightarrow> (api_error + Note) \<times> db" where
  "update_note note_ok d nid upd uid =
     (case get_note d nid uid of
        None \<Rightarrow> (Inl (HTTPException 404 ''Note not found''), d)
      | Some db_note \<Rightarrow>
          (case commit note_ok
                  (d\<lparr>tbl_notes := map (\<lambda>r. if note_id r = note_id db_note then setattrs upd r else r)
                                  (tbl_notes d)\<rparr>) of
             Inr d' \<Rightarrow> (Inr (setattrs upd db_note), d')
           | Inl IntegrityError \<Rightarrow> (Inl (HTTPException 400 ''Note update failed''), d)))"

text \<open>\<^verbatim>\<open>delete_note\<close>: the commit deletes the row with the primary key of \<^verbatim>\<open>db_note\<close>.\<close>

definition delete_note ::
  "(Note \<Rightarrow> bool) \<Rightarrow> db \<Rightarrow> int \<Rightarrow> int \<Rightarrow> (api_error + bool) \<times> db" where
  "delete_note note_ok d nid uid =
     (case get_note d nid uid of
        None \<Rightarrow> (Inl (HTTPException 404 ''Note not found''), d)
      | Some db_note \<Rightarrow>
          (case commit note_ok
                  (d\<lparr>tbl_notes := filter (\<lambda>r. note_id r \<noteq> note_id db_note) (tbl_notes d)\<rparr>) of
             Inr d' \<Rightarrow> (Inr True, d')
           | Inl IntegrityError \<Rightarrow> (Inl (HTTPException 400 ''Note deletion failed''), d)))"

section \<open>The endpoints of app/routers/notes.py\<close>

text \<open>
  Modelled from the spec: \<^verbatim>\<open>get_current_active_user\<close> lives in \<^verbatim>\<open>app/auth.py\<close>, which is not
  among the sources. Identity extraction from the bearer token fails with Unauthenticated
  when the token is missing, invalid or expired. The argument is the user that identity
  extraction accepts for the request, \<open>None\<close> when it accepts none.
\<close>

definition get_current_active_user :: "User option \<Rightarrow> api_error + User" where
  "get_current_active_user cred =
     (case cred of None \<Rightarrow> Inl Unauthenticated | Some u \<Rightarrow> Inr u)"

text \<open>
  Every endpoint but the public list declares
  \<^verbatim>\<open>current_user: User = Depends(get_current_active_user)\<close>; the dependency runs before the
  body of the endpoint and before the query parameters are checked.
\<close>

definition create_user_note ::
  "(Note \<Rightarrow> bool) \<Rightarrow> db \<Rightarrow> NoteCreate \<Rightarrow> User option \<Rightarrow> (api_error + Note) \<times> db" where
  "create_user_note note_ok d n cred =
     (case get_current_active_user cred of
        Inl e \<Rightarrow> (Inl e, d)
      | Inr current_user \<Rightarrow> create_note note_ok d n (user_id current_user))"

text \<open>
  \<^verbatim>\<open>skip: int = Query(0, ge=0)\<close> and \<^verbatim>\<open>limit: int = Query(100, ge=1, le=1000)\<close>. The list
  endpoints return what the query returns; a query that fails in the store ends the request
  with an internal server error.
\<close>

definition query_ok :: "int \<Rightarrow> int \<Rightarrow> bool" where
  "query_ok skip limit \<longleftrightarrow> 0 \<le> skip \<and> 1 \<le> limit \<and> limit \<le> 1000"

definition read_user_notes :: "db \<Rightarrow> int \<Rightarrow> int \<Rightarrow> User option \<Rightarrow> api_error + Note list" where
  "read_user_notes d skip limit cred =
     (case get_current_active_user cred of
        Inl e \<Rightarrow> Inl e
      | Inr current_user \<Rightarrow>
          if query_ok skip limit
          then (case get_user_notes d (user_id current_user) (nat skip) (nat limit) of
                  Inr page \<Rightarrow> Inr page
                | Inl OutOfRange \<Rightarrow> Inl InternalServerError)
          else Inl RequestValidationError)"

definition read_public_notes :: "db \<Rightarrow> int \<Rightarrow> int \<Rightarrow> api_error + Note list" where
  "read_public_notes d skip limit =
     (if query_ok skip limit
      then (case get_public_notes d (nat skip) (nat limit) of
              Inr page \<Rightarrow> Inr page
            | Inl OutOfRange \<Rightarrow> Inl InternalServerError)
      else Inl RequestValidationError)"

text \<open>\<^verbatim>\<open>read_note\<close>: the requester's own note first, then the public note, then 404.\<close>

definition read_note :: "db \<Rightarrow> int \<Rightarrow> User option \<Rightarrow> api_error + Note" where
  "read_note d nid cred =
     (case get_current_active_user cred of
        Inl e \<Rightarrow> Inl e
      | Inr current_user \<Rightarrow>
          (case get_note d nid (user_id current_user) of
             Some n \<Rightarrow> Inr n
           | None \<Rightarrow>
               (case get_public_note d nid of
                  Some n \<Rightarrow> Inr n
                | None \<Rightarrow> Inl (HTTPException 404 ''Note not found''))))"

definition update_user_note ::
  "(Note \<Rightarrow> bool) \<Rightarrow> db \<Rightarrow> int \<Rightarrow> NoteUpdate \<Rightarrow> User option \<Rightarrow> (api_error + Note) \<times> db" where
  "update_user_note note_ok d nid upd cred =
     (case get_current_active_user cred of
        Inl e \<Rightarrow> (Inl e, d)
      | Inr current_user \<Rightarrow> update_note note_ok d nid upd (user_id current_user))"

definition delete_user_note ::
  "(Note \<Rightarrow> bool) \<Rightarrow> db \<Rightarrow> int \<Rightarrow> User option \<Rightarrow> (api_error + string) \<times> db" where
  "delete_user_note note_ok d nid cred =
     (case get_current_active_user cred of
        Inl e \<Rightarrow> (Inl e, d)
      | Inr current_user \<Rightarrow>
          (case delete_note note_ok d nid (user_id current_user) of
             (Inl e, d') \<Rightarrow> (Inl e, d')
           | (Inr _, d') \<Rightarrow> (Inr ''Note deleted successfully'', d')))"

section \<open>Reachable states\<close>

text \<open>
  The states the service can be in: it starts with empty tables, and every request that
  writes (registration and the three writing endpoints of the notes router) leads from one
  state to the next. Next to the state runs a log that is not part of the program: for each
  note id, the id of the requester at the moment the note was created.
\<close>

inductive history ::
  "(string \<Rightarrow> string) \<Rightarrow> (Note \<Rightarrow> bool) \<Rightarrow> db \<Rightarrow> (int \<Rightarrow> int option) \<Rightarrow> bool"
  for gph :: "string \<Rightarrow> string" and note_ok :: "Note \<Rightarrow> bool" where
  started: "history gph note_ok empty_db (\<lambda>_. None)"
| registered:
    "history gph note_ok d cr \<Longrightarrow> create_user gph note_ok d u = (r, d')
      \<Longrightarrow> history gph note_ok d' cr"
| created:
    "history gph note_ok d cr \<Longrightarrow> create_user_note note_ok d n (Some cu) = (Inr new, d')
      \<Longrightarrow> history gph note_ok d' (cr(note_id new \<mapsto> user_id cu))"
| not_created:
    "history gph note_ok d cr \<Longrightarrow> create_user_note note_ok d n cred = (Inl e, d')
      \<Longrightarrow> history gph note_ok d' cr"
| updated:
    "history gph note_ok d cr \<Longrightarrow> update_user_note note_ok d nid upd cred = (r, d')
      \<Longrightarrow> history gph note_ok d' cr"
| deleted:
    "history gph note_ok d cr \<Longrightarrow> delete_user_note note_ok d nid cred = (r, d')
      \<Longrightarrow> history gph note_ok d' cr"

section \<open>Sample data\<close>

text \<open>
  Two registered users, alice (id 1) and bob (id 2), and three notes: a private note of
  alice, a public note of alice and a private note of bob. The sample schema declares the
  title and the content of a note NOT NULL.
\<close>

definition not_null :: "Note \<Rightarrow> bool" where
  "not_null n \<longleftrightarrow> title n \<noteq> None \<and> content n \<noteq> None"

definition alice :: User where
  "alice = \<lparr>user_id = 1, email = ''a@x.com'', username = ''alice'',
             hashed_password = ''hash:pw123'', is_active = True\<rparr>"

definition bob :: User where
  "bob = \<lparr>user_id = 2, email = ''b@x.com'', username = ''bob'',
           hashed_password = ''hash:pw456'', is_active = True\<rparr>"

definition note1 :: Note where
  "note1 = \<lparr>note_id = 1, title = Some ''t'', content = Some ''c'',
             is_public = Some False, owner_id = 1\<rparr>"

definition note2 :: Note where
  "note2 = \<lparr>note_id = 2, title = Some ''news'', content = Some ''hello'',
             is_public = Some True, owner_id = 1\<rparr>"

definition note3 :: Note where
  "note3 = \<lparr>note_id = 3, title = Some ''todo'', content = Some ''milk'',
             is_public = Some False, owner_id = 2\<rparr>"

definition sample_db :: db where
  "sample_db = \<lparr>tbl_users = [alice, bob], tbl_notes = [note1, note2, note3],
                 users_id_seq = 3, notes_id_seq = 4\<rparr>"

text \<open>
  A store in which alice owns 150 notes (ids 1 to 150, every third one public) and bob owns
  one, and the hasher used in the examples.
\<close>

definition alice_note :: "nat \<Rightarrow> Note" where
  "alice_note i = \<lparr>note_id = int i, title = Some ''n'', content = Some ''c'',
                    is_public = Some (i mod 3 = 0), owner_id = 1\<rparr>"

definition crowded_db :: db where
  "crowded_db = \<lparr>tbl_users = [alice, bob],
                  tbl_notes = map alice_note [1..<151] @ [note3\<lparr>note_id := 151\<rparr>],
                  users_id_seq = 3, notes_id_seq = 152\<rparr>"

definition sample_hash :: "string \<Rightarrow> string" where
  "sample_hash pw = ''hash:'' @ pw"

section \<open>Lookups\<close>

lemma find_None_iff_pred: "find P xs = None \<longleftrightarrow> (\<forall>x \<in> set xs. \<not> P x)"
  by (induction xs) auto

lemma find_distinct_key:
  assumes "distinct (map k xs)" and "x \<in> set xs" and "P x"
    and same: "\<forall>y. P y \<longrightarrow> k y = k x"
  shows "find P xs = Some x"
  using assms(1,2)
proof (induction xs)
  case Nil
  then show ?case by simp
next
  case (Cons a xs)
  show ?case
  proof (cases "a = x")
    case True
    then show ?thesis using \<open>P x\<close> by simp
  next
    case False
    with Cons.prems have xin: "x \<in> set xs" by simp
    from Cons.prems(1) have fresh: "k a \<notin> k ` set xs" by simp
    have "\<not> P a"
    proof
      assume "P a"
      with same have "k a = k x" by blast
      with fresh xin show False by force
    qed
    moreover from Cons.prems(1) have "distinct (map k xs)" by simp
    ultimately show ?thesis
      using Cons.IH xin by simp
  qed
qed

section \<open>Reading one note\<close>

lemma get_note_None:
  assumes "\<forall>m \<in> set (tbl_notes d). note_id m = nid \<longrightarrow> owner_id m \<noteq> uid"
  shows "get_note d nid uid = None"
  using assms by (auto simp: get_note_def find_None_iff_pred)

lemma get_public_note_None:
  assumes "\<forall>m \<in> set (tbl_notes d). note_id m = nid \<longrightarrow> is_public m \<noteq> Some True"
  shows "get_public_note d nid = None"
  using assms by (auto simp: get_public_note_def find_None_iff_pred)

lemma distinct_note_id_eq:
  assumes "distinct (map note_id (tbl_notes d))"
    and "n \<in> set (tbl_notes d)" and "m \<in> set (tbl_notes d)" and "note_id m = note_id n"
  shows "m = n"
  using assms by (meson distinct_map inj_onD)

lemma get_note_owner:
  assumes "distinct (map note_id (tbl_notes d))" and "n \<in> set (tbl_notes d)"
  shows "get_note d (note_id n) (owner_id n) = Some n"
  unfolding get_note_def
  by (rule find_distinct_key [where k = note_id]) (use assms in auto)

lemma get_public_note_public:
  assumes "distinct (map note_id (tbl_notes d))" and "n \<in> set (tbl_notes d)"
    and "is_public n = Some True"
  shows "get_public_note d (note_id n) = Some n"
  unfolding get_public_note_def
  by (rule find_distinct_key [where k = note_id]) (use assms in auto)

lemma get_note_not_owner:
  assumes "distinct (map note_id (tbl_notes d))" and "n \<in> set (tbl_notes d)"
    and "owner_id n \<noteq> uid"
  shows "get_note d (note_id n) uid = None"
proof (rule get_note_None, intro ballI impI)
  fix m
  assume "m \<in> set (tbl_notes d)" and "note_id m = note_id n"
  with assms(1,2) have "m = n" by (rule distinct_note_id_eq)
  with assms(3) show "owner_id m \<noteq> uid" by simp
qed

lemma get_public_note_private:
  assumes "distinct (map note_id (tbl_notes d))" and "n \<in> set (tbl_notes d)"
    and "is_public n \<noteq> Some True"
  shows "get_public_note d (note_id n) = None"
proof (rule get_public_note_None, intro ballI impI)
  fix m
  assume "m \<in> set (tbl_notes d)" and "note_id m = note_id n"
  with assms(1,2) have "m = n" by (rule distinct_note_id_eq)
  with assms(3) show "is_public m \<noteq> Some True" by simp
qed

lemmas sample_defs =
  sample_db_def alice_def bob_def note1_def note2_def note3_def not_null_def

text \<open>
  C1. A private note of another user and a note id that no row carries give the same
  answer to a requester: for users \<open>u1\<close> and \<open>u2\<close> with different ids, a note \<open>n\<close> of \<open>u1\<close>
  that is not public, and an id \<open>missing\<close> that is not in the table, \<^verbatim>\<open>GET /notes/{id}\<close> as
  \<open>u2\<close> ends with 404 "Note not found" for the id of \<open>n\<close> and for \<open>missing\<close> alike. The
  note id is the primary key of the table, so no two rows share one.
\<close>

theorem read_note_private_as_missing:
  assumes "distinct (map note_id (tbl_notes d))"
    and "n \<in> set (tbl_notes d)" and "owner_id n = user_id u1"
    and "user_id u2 \<noteq> user_id u1" and "is_public n \<noteq> Some True"
    and "\<forall>m \<in> set (tbl_notes d). note_id m \<noteq> missing"
  shows "read_note d (note_id n) (Some u2) = Inl (HTTPException 404 ''Note not found'') \<and>
         read_note d missing (Some u2) = Inl (HTTPException 404 ''Note not found'') \<and>
         read_note d (note_id n) (Some u2) = read_note d missing (Some u2)"
proof -
  from assms(3,4) have "owner_id n \<noteq> user_id u2" by simp
  with assms(1,2) have own: "get_note d (note_id n) (user_id u2) = None"
    by (rule get_note_not_owner)
  from assms(1,2,5) have pub: "get_public_note d (note_id n) = None"
    by (rule get_public_note_private)
  from assms(6) have own': "get_note d missing (user_id u2) = None"
    by (intro get_note_None) blast
  from assms(6) have pub': "get_public_note d missing = None"
    by (intro get_public_note_None) blast
  show ?thesis
    by (simp add: read_note_def get_current_active_user_def own pub own' pub')
qed

theorem read_note_private_as_missing_witness:
  "distinct (map note_id (tbl_notes sample_db)) \<and> note1 \<in> set (tbl_notes sample_db) \<and>
   owner_id note1 = user_id alice \<and> user_id bob \<noteq> user_id alice \<and>
   is_public note1 \<noteq> Some True \<and> list_all (\<lambda>m. note_id m \<noteq> 99) (tbl_notes sample_db) \<and>
   read_note sample_db (note_id note1) (Some bob) = Inl (HTTPException 404 ''Note not found'') \<and>
   read_note sample_db 99 (Some bob) = Inl (HTTPException 404 ''Note not found'')"
proof -
  have h: "distinct (map note_id (tbl_notes sample_db))" "note1 \<in> set (tbl_notes sample_db)"
    "owner_id note1 = user_id alice" "user_id bob \<noteq> user_id alice"
    "is_public note1 \<noteq> Some True" "\<forall>m \<in> set (tbl_notes sample_db). note_id m \<noteq> 99"
    by (simp_all add: sample_defs)
  from read_note_private_as_missing [OF h] h show ?thesis
    by (simp add: list_all_iff)
qed

text \<open>
  C2, as the code has it. \<^verbatim>\<open>GET /notes/{id}\<close> declares the identity dependency, so a
  request without identity is turned away before any lookup. For every requester with an
  identity, owner or not, reading a public note \<open>n\<close> by its id succeeds and returns \<open>n\<close>
  as it is stored.
\<close>

theorem read_note_public:
  assumes "distinct (map note_id (tbl_notes d))"
    and "n \<in> set (tbl_notes d)" and "is_public n = Some True"
  shows "read_note d (note_id n) (Some u2) = Inr n \<and>
         read_note d (note_id n) None = Inl Unauthenticated"
proof -
  from assms have pub: "get_public_note d (note_id n) = Some n"
    by (rule get_public_note_public)
  have "get_note d (note_id n) (user_id u2) = Some n \<or>
        get_note d (note_id n) (user_id u2) = None"
  proof (cases "owner_id n = user_id u2")
    case True
    with get_note_owner [OF assms(1,2)] show ?thesis by simp
  next
    case False
    with assms(1,2) show ?thesis by (simp add: get_note_not_owner)
  qed
  then show ?thesis
    by (auto simp: read_note_def get_current_active_user_def pub)
qed

theorem read_note_public_witness:
  "distinct (map note_id (tbl_notes sample_db)) \<and> note2 \<in> set (tbl_notes sample_db) \<and>
   is_public note2 = Some True \<and> owner_id note2 \<noteq> user_id bob \<and>
   read_note sample_db (note_id note2) (Some bob) = Inr note2 \<and>
   read_note sample_db (note_id note2) (Some alice) = Inr note2 \<and>
   read_note sample_db (note_id note2) None = Inl Unauthenticated"
proof -
  have h: "distinct (map note_id (tbl_notes sample_db))" "note2 \<in> set (tbl_notes sample_db)"
    "is_public note2 = Some True"
    by (simp_all add: sample_defs)
  have "owner_id note2 \<noteq> user_id bob" by (simp add: sample_defs)
  with read_note_public [OF h, of bob] read_note_public [OF h, of alice] h show ?thesis
    by simp
qed

text \<open>
  C2, as the claim has it, fails for the requester without identity: the public note of
  alice is in the table, and reading it by id with no identity does not return it.
\<close>

theorem read_note_public_unauthenticated_counterexample:
  "note2 \<in> set (tbl_notes sample_db) \<and> is_public note2 = Some True \<and>
   read_note sample_db (note_id note2) None = Inl Unauthenticated \<and>
   read_note sample_db (note_id note2) None \<noteq> Inr note2"
  by (simp add: sample_defs read_note_def get_current_active_user_def)

section \<open>Writing needs ownership\<close>

text \<open>
  C3. For every note \<open>n\<close> in the table and every requester id \<open>uid\<close> that is not the owner
  of \<open>n\<close>, the ownership lookup of update and delete finds nothing, and both operations end
  with 404 "Note not found" and leave the store as it was, whatever the visibility of \<open>n\<close>
  and whatever the update asks for.
\<close>

theorem write_needs_owner:
  assumes "distinct (map note_id (tbl_notes d))"
    and "n \<in> set (tbl_notes d)" and "owner_id n \<noteq> uid"
  shows "get_note d (note_id n) uid = None \<and>
         update_note note_ok d (note_id n) upd uid = (Inl (HTTPException 404 ''Note not found''), d) \<and>
         delete_note note_ok d (note_id n) uid = (Inl (HTTPException 404 ''Note not found''), d)"
proof -
  from assms have "get_note d (note_id n) uid = None" by (rule get_note_not_owner)
  then show ?thesis by (simp add: update_note_def delete_note_def)
qed

theorem write_needs_owner_witness:
  "distinct (map note_id (tbl_notes sample_db)) \<and> note2 \<in> set (tbl_notes sample_db) \<and>
   is_public note2 = Some True \<and> owner_id note2 \<noteq> user_id bob \<and>
   update_note not_null sample_db (note_id note2)
     \<lparr>u_title = Some (Some ''x''), u_content = None, u_is_public = None\<rparr> (user_id bob)
     = (Inl (HTTPException 404 ''Note not found''), sample_db) \<and>
   delete_note not_null sample_db (note_id note2) (user_id bob)
     = (Inl (HTTPException 404 ''Note not found''), sample_db)"
proof -
  have h: "distinct (map note_id (tbl_notes sample_db))" "note2 \<in> set (tbl_notes sample_db)"
    "owner_id note2 \<noteq> user_id bob"
    by (simp_all add: sample_defs)
  have "is_public note2 = Some True" by (simp add: sample_defs)
  with write_needs_owner [OF h] h show ?thesis by simp
qed

section \<open>The unit of work\<close>

lemma commit_accepts: "constraints note_ok p \<Longrightarrow> commit note_ok p = Inr p"
  by (simp add: commit_def)

lemma commit_rejects: "\<not> constraints note_ok p \<Longrightarrow> commit note_ok p = Inl IntegrityError"
  by (simp add: commit_def)

lemma get_note_SomeD:
  assumes "get_note d nid uid = Some n"
  shows "n \<in> set (tbl_notes d) \<and> note_id n = nid \<and> owner_id n = uid"
  using assms by (auto simp: get_note_def find_Some_iff)

lemma setattrs_note_id: "note_id (setattrs upd r) = note_id r"
  by (simp add: setattrs_def)

lemma setattrs_owner_id: "owner_id (setattrs upd r) = owner_id r"
  by (simp add: setattrs_def)

lemma map_update_note_id:
  "map note_id (map (\<lambda>r. if note_id r = k then setattrs upd r else r) xs) = map note_id xs"
  by (induction xs) (simp_all add: setattrs_note_id)

lemma map_update_owner_id:
  "map owner_id (map (\<lambda>r. if note_id r = k then setattrs upd r else r) xs) = map owner_id xs"
  by (induction xs) (simp_all add: setattrs_owner_id)

lemma filter_update_others:
  "filter (\<lambda>m. note_id m \<noteq> k) (map (\<lambda>r. if note_id r = k then setattrs upd r else r) xs)
     = filter (\<lambda>m. note_id m \<noteq> k) xs"
  by (induction xs) (simp_all add: setattrs_note_id)

lemma constraints_delete:
  assumes "constraints note_ok d"
  shows "constraints note_ok (d\<lparr>tbl_notes := filter P (tbl_notes d)\<rparr>)"
  using assms by (auto simp: constraints_def distinct_map_filter list_all_iff)

lemma constraints_update:
  assumes ok: "constraints note_ok d" and n: "n \<in> set (tbl_notes d)"
    and row: "note_ok (setattrs upd n)"
  shows "constraints note_ok
           (d\<lparr>tbl_notes := map (\<lambda>r. if note_id r = note_id n then setattrs upd r else r)
                               (tbl_notes d)\<rparr>)"
proof -
  from ok have dist: "distinct (map note_id (tbl_notes d))"
    by (simp add: constraints_def)
  have rows: "owner_id (if note_id r = note_id n then setattrs upd r else r)
                  \<in> set (map user_id (tbl_users d)) \<and>
              note_ok (if note_id r = note_id n then setattrs upd r else r)"
    if r: "r \<in> set (tbl_notes d)" for r
  proof (cases "note_id r = note_id n")
    case True
    with dist n r have "r = n" by (rule distinct_note_id_eq)
    moreover from ok n have "owner_id n \<in> set (map user_id (tbl_users d))"
      by (simp add: constraints_def list_all_iff)
    ultimately show ?thesis using row by (simp add: setattrs_owner_id)
  next
    case False
    with ok r show ?thesis by (simp add: constraints_def list_all_iff)
  qed
  from ok have "distinct (map user_id (tbl_users d)) \<and> distinct (map email (tbl_users d)) \<and>
      distinct (map username (tbl_users d))"
    by (simp add: constraints_def)
  moreover have "list_all (\<lambda>m. owner_id m \<in> set (map user_id (tbl_users d)) \<and> note_ok m)
      (map (\<lambda>r. if note_id r = note_id n then setattrs upd r else r) (tbl_notes d))"
    unfolding list_all_iff
  proof
    fix m
    assume "m \<in> set (map (\<lambda>r. if note_id r = note_id n then setattrs upd r else r)
                        (tbl_notes d))"
    then obtain r where "r \<in> set (tbl_notes d)"
      and "m = (if note_id r = note_id n then setattrs upd r else r)"
      by (auto simp del: if_split split: if_splits)
    with rows show "owner_id m \<in> set (map user_id (tbl_users d)) \<and> note_ok m"
      by blast
  qed
  ultimately show ?thesis
    using dist unfolding constraints_def
    by (simp add: map_update_note_id del: map_map)
qed

lemma update_pending_rejected:
  assumes n: "n \<in> set (tbl_notes d)" and row: "\<not> note_ok (setattrs upd n)"
  shows "\<not> constraints note_ok
           (d\<lparr>tbl_notes := map (\<lambda>r. if note_id r = note_id n then setattrs upd r else r)
                               (tbl_notes d)\<rparr>)"
proof
  assume "constraints note_ok
           (d\<lparr>tbl_notes := map (\<lambda>r. if note_id r = note_id n then setattrs upd r else r)
                               (tbl_notes d)\<rparr>)"
  then have "\<forall>r \<in> set (tbl_notes d).
      note_ok (if note_id r = note_id n then setattrs upd r else r)"
    by (simp add: constraints_def list_all_iff)
  with n have "note_ok (setattrs upd n)" by force
  with row show False by contradiction
qed

section \<open>Updating a note\<close>

lemma update_note_accepted:
  assumes "constraints note_ok d" and "get_note d nid uid = Some n"
    and "note_ok (setattrs upd n)"
  shows "update_note note_ok d nid upd uid =
           (Inr (setattrs upd n),
            d\<lparr>tbl_notes := map (\<lambda>r. if note_id r = note_id n then setattrs upd r else r)
                                (tbl_notes d)\<rparr>)"
proof -
  from assms(2) have "n \<in> set (tbl_notes d)" by (simp add: get_note_SomeD)
  with assms(1,3) have "constraints note_ok
      (d\<lparr>tbl_notes := map (\<lambda>r. if note_id r = note_id n then setattrs upd r else r)
                          (tbl_notes d)\<rparr>)"
    by (intro constraints_update)
  then show ?thesis
    by (simp add: update_note_def assms(2) commit_accepts)
qed

text \<open>
  C5. An update by the owner leaves every field that the request does not set as it was:
  whatever the outcome of the call, the requester's note afterwards has its prior title,
  content or is_public wherever the request is silent on that field, and its prior id and
  owner. When the store accepts the write, the fields that the request sets take the values
  of the request: the note returned, which is also the note a later read by the owner finds,
  has each of title, content and is_public equal to the value of the request where the
  request sets the field and equal to the prior value where it does not; the rows with
  another id and the users table are as before.
\<close>

theorem update_note_partial:
  assumes "constraints note_ok d" and "get_note d nid uid = Some n"
  shows "(\<exists>n'. get_note (snd (update_note note_ok d nid upd uid)) nid uid = Some n' \<and>
            (u_title upd = None \<longrightarrow> title n' = title n) \<and>
            (u_content upd = None \<longrightarrow> content n' = content n) \<and>
            (u_is_public upd = None \<longrightarrow> is_public n' = is_public n) \<and>
            note_id n' = note_id n \<and> owner_id n' = owner_id n) \<and>
         (note_ok (setattrs upd n) \<longrightarrow>
           (\<exists>n' d'. update_note note_ok d nid upd uid = (Inr n', d') \<and>
              get_note d' nid uid = Some n' \<and>
              title n' = (case u_title upd of None \<Rightarrow> title n | Some v \<Rightarrow> v) \<and>
              content n' = (case u_content upd of None \<Rightarrow> content n | Some v \<Rightarrow> v) \<and>
              is_public n' = (case u_is_public upd of None \<Rightarrow> is_public n | Some v \<Rightarrow> v) \<and>
              note_id n' = note_id n \<and> owner_id n' = owner_id n \<and>
              filter (\<lambda>m. note_id m \<noteq> nid) (tbl_notes d')
                = filter (\<lambda>m. note_id m \<noteq> nid) (tbl_notes d) \<and>
              length (tbl_notes d') = length (tbl_notes d) \<and>
              tbl_users d' = tbl_users d))"
proof -
  define d' where
    "d' = d\<lparr>tbl_notes := map (\<lambda>r. if note_id r = note_id n then setattrs upd r else r)
                              (tbl_notes d)\<rparr>"
  define n' where "n' = setattrs upd n"
  from assms(2) have n: "n \<in> set (tbl_notes d)" "note_id n = nid" "owner_id n = uid"
    by (simp_all add: get_note_SomeD)
  have fields: "title n' = (case u_title upd of None \<Rightarrow> title n | Some v \<Rightarrow> v)"
    "content n' = (case u_content upd of None \<Rightarrow> content n | Some v \<Rightarrow> v)"
    "is_public n' = (case u_is_public upd of None \<Rightarrow> is_public n | Some v \<Rightarrow> v)"
    "note_id n' = note_id n" "owner_id n' = owner_id n"
    by (simp_all add: n'_def setattrs_def)
  have others: "filter (\<lambda>m. note_id m \<noteq> nid) (tbl_notes d')
      = filter (\<lambda>m. note_id m \<noteq> nid) (tbl_notes d)"
    using filter_update_others [of nid upd "tbl_notes d"] by (simp add: d'_def n(2))
  have rest: "length (tbl_notes d') = length (tbl_notes d)" "tbl_users d' = tbl_users d"
    by (simp_all add: d'_def)
  have accepted: "update_note note_ok d nid upd uid = (Inr n', d') \<and>
      get_note d' nid uid = Some n'" if row: "note_ok (setattrs upd n)"
  proof -
    have run: "update_note note_ok d nid upd uid = (Inr n', d')"
      unfolding d'_def n'_def using assms row by (rule update_note_accepted)
    from assms(1) n(1) row have "constraints note_ok d'"
      unfolding d'_def by (intro constraints_update)
    then have dist: "distinct (map note_id (tbl_notes d'))"
      by (simp add: constraints_def)
    from n(1) have "n' \<in> set (tbl_notes d')"
      by (force simp: d'_def n'_def)
    with dist have "get_note d' (note_id n') (owner_id n') = Some n'"
      by (rule get_note_owner)
    then have "get_note d' nid uid = Some n'"
      by (simp add: n'_def setattrs_note_id setattrs_owner_id n)
    with run show ?thesis by simp
  qed
  have frame: "\<exists>m. get_note (snd (update_note note_ok d nid upd uid)) nid uid = Some m \<and>
            (u_title upd = None \<longrightarrow> title m = title n) \<and>
            (u_content upd = None \<longrightarrow> content m = content n) \<and>
            (u_is_public upd = None \<longrightarrow> is_public m = is_public n) \<and>
            note_id m = note_id n \<and> owner_id m = owner_id n"
  proof (cases "note_ok (setattrs upd n)")
    case True
    with accepted have "get_note (snd (update_note note_ok d nid upd uid)) nid uid = Some n'"
      by simp
    moreover have "(u_title upd = None \<longrightarrow> title n' = title n) \<and>
            (u_content upd = None \<longrightarrow> content n' = content n) \<and>
            (u_is_public upd = None \<longrightarrow> is_public n' = is_public n)"
      by (simp add: fields)
    ultimately show ?thesis using fields(4,5) by (intro exI [of _ n']) simp
  next
    case False
    with n(1) have "\<not> constraints note_ok d'"
      unfolding d'_def by (rule update_pending_rejected)
    then have "update_note note_ok d nid upd uid
        = (Inl (HTTPException 400 ''Note update failed''), d)"
      by (simp add: update_note_def assms(2) d'_def commit_rejects)
    with assms(2) show ?thesis by simp
  qed
  from frame accepted fields others rest show ?thesis by blast
qed

text \<open>
  The example of the claim: alice sets only the title of her first note to "x". The content
  and the visibility stay, and the other two notes are untouched.
\<close>

theorem update_note_partial_witness:
  "constraints not_null sample_db \<and> get_note sample_db 1 1 = Some note1 \<and>
   not_null (setattrs \<lparr>u_title = Some (Some ''x''), u_content = None, u_is_public = None\<rparr> note1) \<and>
   (\<exists>n' d'. update_note not_null sample_db 1
               \<lparr>u_title = Some (Some ''x''), u_content = None, u_is_public = None\<rparr> 1
               = (Inr n', d') \<and>
            get_note d' 1 1 = Some n' \<and>
            title n' = Some ''x'' \<and> content n' = content note1 \<and>
            is_public n' = is_public note1 \<and> owner_id n' = owner_id note1 \<and>
            filter (\<lambda>m. note_id m \<noteq> 1) (tbl_notes d') = [note2, note3])"
proof -
  let ?upd = "\<lparr>u_title = Some (Some ''x''), u_content = None, u_is_public = None\<rparr>"
  have h: "constraints not_null sample_db" "get_note sample_db 1 1 = Some note1"
    by (simp_all add: constraints_def get_note_def sample_defs)
  have row: "not_null (setattrs ?upd note1)"
    by (simp add: setattrs_def sample_defs)
  have rows: "filter (\<lambda>m. note_id m \<noteq> 1) (tbl_notes sample_db) = [note2, note3]"
    by (simp add: sample_defs)
  from update_note_partial [OF h, of ?upd] row
  obtain n' d' where "update_note not_null sample_db 1 ?upd 1 = (Inr n', d')"
    and "get_note d' 1 1 = Some n'"
    and "title n' = (case u_title ?upd of None \<Rightarrow> title note1 | Some v \<Rightarrow> v)"
    and "content n' = (case u_content ?upd of None \<Rightarrow> content note1 | Some v \<Rightarrow> v)"
    and "is_public n' = (case u_is_public ?upd of None \<Rightarrow> is_public note1 | Some v \<Rightarrow> v)"
    and "owner_id n' = owner_id note1"
    and "filter (\<lambda>m. note_id m \<noteq> 1) (tbl_notes d')
          = filter (\<lambda>m. note_id m \<noteq> 1) (tbl_notes sample_db)"
    by blast
  with h row rows show ?thesis by simp
qed

text \<open>
  C7. An update whose write the store rejects ends with the 400 "Note update failed" of the
  \<^verbatim>\<open>except IntegrityError\<close> branch; the pending unit of work is dropped, so the store is
  the one from before the call and the note still resolves to its prior row. In
  particular an update that would leave the row in breach of a constraint of the notes
  table is rejected in this way.
\<close>

theorem update_note_rejected:
  assumes "get_note d nid uid = Some n"
  shows "(commit note_ok
            (d\<lparr>tbl_notes := map (\<lambda>r. if note_id r = note_id n then setattrs upd r else r)
                                (tbl_notes d)\<rparr>) = Inl IntegrityError
          \<longrightarrow> update_note note_ok d nid upd uid = (Inl (HTTPException 400 ''Note update failed''), d)) \<and>
         (\<not> note_ok (setattrs upd n)
          \<longrightarrow> update_note note_ok d nid upd uid = (Inl (HTTPException 400 ''Note update failed''), d) \<and>
              get_note (snd (update_note note_ok d nid upd uid)) nid uid = Some n)"
proof (intro conjI impI)
  assume "commit note_ok
            (d\<lparr>tbl_notes := map (\<lambda>r. if note_id r = note_id n then setattrs upd r else r)
                                (tbl_notes d)\<rparr>) = Inl IntegrityError"
  then show "update_note note_ok d nid upd uid = (Inl (HTTPException 400 ''Note update failed''), d)"
    by (simp add: update_note_def assms)
next
  assume bad: "\<not> note_ok (setattrs upd n)"
  from assms have "n \<in> set (tbl_notes d)" by (simp add: get_note_SomeD)
  then have "\<not> constraints note_ok
           (d\<lparr>tbl_notes := map (\<lambda>r. if note_id r = note_id n then setattrs upd r else r)
                               (tbl_notes d)\<rparr>)"
    using bad by (rule update_pending_rejected)
  then show run: "update_note note_ok d nid upd uid
      = (Inl (HTTPException 400 ''Note update failed''), d)"
    by (simp add: update_note_def assms commit_rejects)
  then show "get_note (snd (update_note note_ok d nid upd uid)) nid uid = Some n"
    by (simp add: assms)
qed

text \<open>
  A rejected write: alice sets the title of her first note to null and its content to "z"
  in one request, on a table that declares the title NOT NULL. Neither field is applied.
\<close>

theorem update_note_rejected_witness:
  "get_note sample_db 1 1 = Some note1 \<and>
   \<not> not_null (setattrs \<lparr>u_title = Some None, u_content = Some (Some ''z''), u_is_public = None\<rparr> note1) \<and>
   update_note not_null sample_db 1
     \<lparr>u_title = Some None, u_content = Some (Some ''z''), u_is_public = None\<rparr> 1
     = (Inl (HTTPException 400 ''Note update failed''), sample_db) \<and>
   content note1 = Some ''c'' \<and> title note1 = Some ''t''"
proof -
  let ?upd = "\<lparr>u_title = Some None, u_content = Some (Some ''z''), u_is_public = None\<rparr>"
  have h: "get_note sample_db 1 1 = Some note1"
    by (simp add: get_note_def sample_defs)
  have bad: "\<not> not_null (setattrs ?upd note1)"
    by (simp add: setattrs_def sample_defs)
  have "content note1 = Some ''c'' \<and> title note1 = Some ''t''"
    by (simp add: sample_defs)
  with update_note_rejected [OF h, of not_null ?upd] h bad show ?thesis
    by simp
qed

section \<open>Deleting a note\<close>

lemma get_note_after_delete:
  "get_note (d\<lparr>tbl_notes := filter (\<lambda>r. note_id r \<noteq> nid) (tbl_notes d)\<rparr>) nid uid = None"
  by (rule get_note_None) simp

text \<open>
  C6. For a note that resolves for its owner, the first delete succeeds (the endpoint
  answers "Note deleted successfully"), and the same delete repeated on the resulting store
  ends with 404 "Note not found", which is the answer for an id that never existed, and
  changes nothing.
\<close>

theorem delete_note_twice:
  assumes "constraints note_ok d" and "get_note d nid (user_id u) = Some n"
  shows "\<exists>d1. delete_note note_ok d nid (user_id u) = (Inr True, d1) \<and>
           delete_user_note note_ok d nid (Some u) = (Inr ''Note deleted successfully'', d1) \<and>
           delete_note note_ok d1 nid (user_id u) = (Inl (HTTPException 404 ''Note not found''), d1) \<and>
           delete_user_note note_ok d1 nid (Some u)
             = (Inl (HTTPException 404 ''Note not found''), d1) \<and>
           tbl_notes d1 = filter (\<lambda>r. note_id r \<noteq> nid) (tbl_notes d)"
proof -
  define d1 where "d1 = d\<lparr>tbl_notes := filter (\<lambda>r. note_id r \<noteq> nid) (tbl_notes d)\<rparr>"
  from assms(2) have nid: "note_id n = nid" by (simp add: get_note_SomeD)
  from assms(1) have "constraints note_ok d1"
    unfolding d1_def by (rule constraints_delete)
  then have first: "delete_note note_ok d nid (user_id u) = (Inr True, d1)"
    by (simp add: delete_note_def assms(2) nid d1_def commit_accepts)
  have gone: "get_note d1 nid (user_id u) = None"
    unfolding d1_def by (rule get_note_after_delete)
  then have second: "delete_note note_ok d1 nid (user_id u)
      = (Inl (HTTPException 404 ''Note not found''), d1)"
    by (simp add: delete_note_def)
  have "delete_user_note note_ok d nid (Some u) = (Inr ''Note deleted successfully'', d1)"
    by (simp add: delete_user_note_def get_current_active_user_def first)
  moreover have "delete_user_note note_ok d1 nid (Some u)
      = (Inl (HTTPException 404 ''Note not found''), d1)"
    by (simp add: delete_user_note_def get_current_active_user_def second)
  moreover have "tbl_notes d1 = filter (\<lambda>r. note_id r \<noteq> nid) (tbl_notes d)"
    by (simp add: d1_def)
  ultimately show ?thesis using first second by blast
qed

theorem delete_note_twice_witness:
  "constraints not_null sample_db \<and> get_note sample_db 3 (user_id bob) = Some note3 \<and>
   (\<exists>d1. delete_user_note not_null sample_db 3 (Some bob)
            = (Inr ''Note deleted successfully'', d1) \<and>
          delete_user_note not_null d1 3 (Some bob)
            = (Inl (HTTPException 404 ''Note not found''), d1) \<and>
          tbl_notes d1 = [note1, note2])"
proof -
  have h: "constraints not_null sample_db" "get_note sample_db 3 (user_id bob) = Some note3"
    by (simp_all add: constraints_def get_note_def sample_defs)
  have "filter (\<lambda>r. note_id r \<noteq> 3) (tbl_notes sample_db) = [note1, note2]"
    by (simp add: sample_defs)
  with delete_note_twice [OF h] h show ?thesis
    by simp blast
qed

section \<open>Creating a note\<close>

lemma seq_fresh_note:
  assumes "seq_ok d"
  shows "notes_id_seq d \<notin> set (map note_id (tbl_notes d))"
  using assms by (auto simp: seq_ok_def list_all_iff)

lemma seq_fresh_user:
  assumes "seq_ok d"
  shows "users_id_seq d \<notin> set (map user_id (tbl_users d))"
  using assms by (auto simp: seq_ok_def list_all_iff)

lemma constraints_create_note:
  assumes "db_ok note_ok d" and "uid \<in> set (map user_id (tbl_users d))"
    and "note_id new = notes_id_seq d" and "owner_id new = uid" and "note_ok new"
  shows "constraints note_ok
           (d\<lparr>tbl_notes := tbl_notes d @ [new], notes_id_seq := notes_id_seq d + 1\<rparr>)"
proof -
  from assms(1) have ok: "constraints note_ok d" and "seq_ok d"
    by (simp_all add: db_ok_def)
  then have "note_id new \<notin> set (map note_id (tbl_notes d))"
    using seq_fresh_note [of d] by (simp add: assms(3))
  with ok assms(2,4,5) show ?thesis
    by (simp add: constraints_def)
qed

lemma create_note_adds:
  assumes "create_note note_ok d n uid = (res, d')" and "x \<in> set (tbl_notes d')"
  shows "x \<in> set (tbl_notes d) \<or> owner_id x = uid"
  using assms
  by (auto simp: create_note_def commit_def Let_def split: if_splits)

text \<open>
  C4. Whatever a create request carries, a row that the call adds to the notes table is
  owned by the requester: the request schema has no owner field, and the owner of the row is
  the id of the requester's identity. For a registered requester on a consistent store,
  a request whose row the notes table accepts is persisted as one new row, owned by the
  requester, holding the title, the content and the visibility of the request, and it
  resolves for the requester.
\<close>

theorem create_note_owner:
  "(\<forall>res d'. create_user_note note_ok d n (Some cu) = (res, d') \<longrightarrow>
      (\<forall>x \<in> set (tbl_notes d'). x \<in> set (tbl_notes d) \<or> owner_id x = user_id cu)) \<and>
   (db_ok note_ok d \<and> cu \<in> set (tbl_users d) \<and>
    note_ok \<lparr>note_id = notes_id_seq d, title = Some (c_title n), content = Some (c_content n),
             is_public = Some (c_is_public n), owner_id = user_id cu\<rparr> \<longrightarrow>
      (\<exists>new d'. create_user_note note_ok d n (Some cu) = (Inr new, d') \<and>
         owner_id new = user_id cu \<and> title new = Some (c_title n) \<and>
         content new = Some (c_content n) \<and> is_public new = Some (c_is_public n) \<and>
         tbl_notes d' = tbl_notes d @ [new] \<and>
         get_note d' (note_id new) (user_id cu) = Some new))"
proof (intro conjI allI impI)
  fix res d'
  assume "create_user_note note_ok d n (Some cu) = (res, d')"
  then have "create_note note_ok d n (user_id cu) = (res, d')"
    by (simp add: create_user_note_def get_current_active_user_def)
  then show "\<forall>x \<in> set (tbl_notes d'). x \<in> set (tbl_notes d) \<or> owner_id x = user_id cu"
    by (blast dest: create_note_adds)
next
  define new where
    "new = \<lparr>note_id = notes_id_seq d, title = Some (c_title n), content = Some (c_content n),
             is_public = Some (c_is_public n), owner_id = user_id cu\<rparr>"
  define d' where
    "d' = d\<lparr>tbl_notes := tbl_notes d @ [new], notes_id_seq := notes_id_seq d + 1\<rparr>"
  assume "db_ok note_ok d \<and> cu \<in> set (tbl_users d) \<and>
    note_ok \<lparr>note_id = notes_id_seq d, title = Some (c_title n), content = Some (c_content n),
             is_public = Some (c_is_public n), owner_id = user_id cu\<rparr>"
  then have ok: "db_ok note_ok d" and cu: "user_id cu \<in> set (map user_id (tbl_users d))"
    and row: "note_ok new"
    by (simp_all add: new_def)
  have "note_id new = notes_id_seq d" and "owner_id new = user_id cu"
    by (simp_all add: new_def)
  with ok cu have valid: "constraints note_ok d'"
    unfolding d'_def using row by (intro constraints_create_note)
  then have run: "create_user_note note_ok d n (Some cu) = (Inr new, d')"
    by (simp add: create_user_note_def get_current_active_user_def create_note_def Let_def
        new_def [symmetric] d'_def [symmetric] commit_accepts)
  from valid have "distinct (map note_id (tbl_notes d'))"
    by (simp add: constraints_def)
  moreover have "new \<in> set (tbl_notes d')" by (simp add: d'_def)
  ultimately have "get_note d' (note_id new) (owner_id new) = Some new"
    by (rule get_note_owner)
  then have "get_note d' (note_id new) (user_id cu) = Some new"
    by (simp add: new_def)
  moreover have "owner_id new = user_id cu \<and> title new = Some (c_title n) \<and>
         content new = Some (c_content n) \<and> is_public new = Some (c_is_public n)"
    by (simp add: new_def)
  moreover have "tbl_notes d' = tbl_notes d @ [new]" by (simp add: d'_def)
  ultimately show "\<exists>new d'. create_user_note note_ok d n (Some cu) = (Inr new, d') \<and>
         owner_id new = user_id cu \<and> title new = Some (c_title n) \<and>
         content new = Some (c_content n) \<and> is_public new = Some (c_is_public n) \<and>
         tbl_notes d' = tbl_notes d @ [new] \<and>
         get_note d' (note_id new) (user_id cu) = Some new"
    using run by blast
qed

lemma sample_db_ok: "db_ok not_null sample_db"
  by (simp add: db_ok_def constraints_def seq_ok_def sample_defs)

text \<open>Bob creates a note on the sample store: the new row is the fourth, and it is his.\<close>

theorem create_note_owner_witness:
  "db_ok not_null sample_db \<and> bob \<in> set (tbl_users sample_db) \<and>
   (\<exists>new d'. create_user_note not_null sample_db
                \<lparr>c_title = ''t'', c_content = ''c'', c_is_public = False\<rparr> (Some bob)
                = (Inr new, d') \<and>
      owner_id new = 2 \<and> tbl_notes d' = [note1, note2, note3, new] \<and>
      (\<forall>x \<in> set (tbl_notes d'). x \<in> set (tbl_notes sample_db) \<or> owner_id x = user_id bob))"
proof -
  let ?n = "\<lparr>c_title = ''t'', c_content = ''c'', c_is_public = False\<rparr>"
  have h: "db_ok not_null sample_db" "bob \<in> set (tbl_users sample_db)"
    using sample_db_ok by (simp_all add: sample_db_def)
  have row: "not_null \<lparr>note_id = notes_id_seq sample_db, title = Some (c_title ?n),
      content = Some (c_content ?n), is_public = Some (c_is_public ?n),
      owner_id = user_id bob\<rparr>"
    by (simp add: not_null_def)
  from create_note_owner [of not_null sample_db ?n bob] h row
  obtain new d' where run: "create_user_note not_null sample_db ?n (Some bob) = (Inr new, d')"
    and new: "owner_id new = user_id bob" "tbl_notes d' = tbl_notes sample_db @ [new]"
    and all: "\<forall>x \<in> set (tbl_notes d'). x \<in> set (tbl_notes sample_db) \<or> owner_id x = user_id bob"
    by blast
  have "user_id bob = 2" and "tbl_notes sample_db = [note1, note2, note3]"
    by (simp_all add: sample_defs)
  with run new all h show ?thesis by auto
qed

section \<open>Registration\<close>

lemma find_Some_ex: "x \<in> set xs \<Longrightarrow> P x \<Longrightarrow> find P xs \<noteq> None"
  by (auto simp: find_None_iff_pred)

lemma constraints_create_user:
  assumes "db_ok note_ok d" and "user_id new = users_id_seq d"
    and "\<forall>u \<in> set (tbl_users d). email u \<noteq> email new"
    and "\<forall>u \<in> set (tbl_users d). username u \<noteq> username new"
  shows "constraints note_ok
           (d\<lparr>tbl_users := tbl_users d @ [new], users_id_seq := users_id_seq d + 1\<rparr>)"
proof -
  from assms(1) have ok: "constraints note_ok d" and "seq_ok d"
    by (simp_all add: db_ok_def)
  then have "user_id new \<notin> set (map user_id (tbl_users d))"
    using seq_fresh_user [of d] by (simp add: assms(2))
  moreover from assms(3) have "email new \<notin> set (map email (tbl_users d))" by auto
  moreover from assms(4) have "username new \<notin> set (map username (tbl_users d))" by auto
  ultimately show ?thesis
    using ok by (auto simp: constraints_def list_all_iff)
qed

text \<open>
  C8. When a user with the email of the request exists, registration ends with the 400
  "Email already registered" and the store is the one from before the call: no row is
  created. When the email is free and a user with the username exists, it ends with the
  400 "Username already taken" in the same way. When neither is present, on a consistent
  store, registration appends one user row with the email and the username of the request,
  the hash of its password and the active flag set, and returns it.
\<close>

theorem create_user_unique:
  "(u \<in> set (tbl_users d) \<and> email u = c_email uc \<longrightarrow>
      create_user gph note_ok d uc = (Inl (HTTPException 400 ''Email already registered''), d)) \<and>
   ((\<forall>v \<in> set (tbl_users d). email v \<noteq> c_email uc) \<and>
    u \<in> set (tbl_users d) \<and> username u = c_username uc \<longrightarrow>
      create_user gph note_ok d uc = (Inl (HTTPException 400 ''Username already taken''), d)) \<and>
   (db_ok note_ok d \<and>
    (\<forall>v \<in> set (tbl_users d). email v \<noteq> c_email uc \<and> username v \<noteq> c_username uc) \<longrightarrow>
      (\<exists>new d'. create_user gph note_ok d uc = (Inr new, d') \<and>
         tbl_users d' = tbl_users d @ [new] \<and> tbl_notes d' = tbl_notes d \<and>
         email new = c_email uc \<and> username new = c_username uc \<and>
         hashed_password new = gph (c_password uc) \<and> is_active new))"
proof (intro conjI impI)
  assume "u \<in> set (tbl_users d) \<and> email u = c_email uc"
  then have "get_user_by_email d (c_email uc) \<noteq> None"
    unfolding get_user_by_email_def by (intro find_Some_ex [of u]) simp_all
  then show "create_user gph note_ok d uc
      = (Inl (HTTPException 400 ''Email already registered''), d)"
    by (simp add: create_user_def)
next
  assume h: "(\<forall>v \<in> set (tbl_users d). email v \<noteq> c_email uc) \<and>
    u \<in> set (tbl_users d) \<and> username u = c_username uc"
  then have "get_user_by_email d (c_email uc) = None"
    by (simp add: get_user_by_email_def find_None_iff_pred)
  moreover from h have "get_user_by_username d (c_username uc) \<noteq> None"
    unfolding get_user_by_username_def by (intro find_Some_ex [of u]) simp_all
  ultimately show "create_user gph note_ok d uc
      = (Inl (HTTPException 400 ''Username already taken''), d)"
    by (simp add: create_user_def)
next
  define new where
    "new = \<lparr>user_id = users_id_seq d, email = c_email uc, username = c_username uc,
             hashed_password = gph (c_password uc), is_active = True\<rparr>"
  define d' where
    "d' = d\<lparr>tbl_users := tbl_users d @ [new], users_id_seq := users_id_seq d + 1\<rparr>"
  assume h: "db_ok note_ok d \<and>
    (\<forall>v \<in> set (tbl_users d). email v \<noteq> c_email uc \<and> username v \<noteq> c_username uc)"
  then have free: "get_user_by_email d (c_email uc) = None"
    "get_user_by_username d (c_username uc) = None"
    by (simp_all add: get_user_by_email_def get_user_by_username_def find_None_iff_pred)
  have "user_id new = users_id_seq d" by (simp add: new_def)
  moreover from h have "\<forall>v \<in> set (tbl_users d). email v \<noteq> email new"
    and "\<forall>v \<in> set (tbl_users d). username v \<noteq> username new"
    by (simp_all add: new_def)
  ultimately have "constraints note_ok d'"
    unfolding d'_def using h by (intro constraints_create_user) simp_all
  then have "create_user gph note_ok d uc = (Inr new, d')"
    by (simp add: create_user_def free Let_def new_def [symmetric] d'_def [symmetric]
        commit_accepts)
  moreover have "tbl_users d' = tbl_users d @ [new] \<and> tbl_notes d' = tbl_notes d"
    by (simp add: d'_def)
  moreover have "email new = c_email uc \<and> username new = c_username uc \<and>
         hashed_password new = gph (c_password uc) \<and> is_active new"
    by (simp add: new_def)
  ultimately show "\<exists>new d'. create_user gph note_ok d uc = (Inr new, d') \<and>
         tbl_users d' = tbl_users d @ [new] \<and> tbl_notes d' = tbl_notes d \<and>
         email new = c_email uc \<and> username new = c_username uc \<and>
         hashed_password new = gph (c_password uc) \<and> is_active new"
    by blast
qed

text \<open>
  On the sample store, a second registration with the email of alice is refused and leaves
  the two users; carol, whose email and username are new, becomes the third user.
\<close>

theorem create_user_unique_witness:
  "alice \<in> set (tbl_users sample_db) \<and> email alice = ''a@x.com'' \<and>
   create_user sample_hash not_null sample_db
     \<lparr>c_email = ''a@x.com'', c_username = ''alice2'', c_password = ''pw123''\<rparr>
     = (Inl (HTTPException 400 ''Email already registered''), sample_db) \<and>
   db_ok not_null sample_db \<and>
   list_all (\<lambda>v. email v \<noteq> ''c@x.com'' \<and> username v \<noteq> ''carol'') (tbl_users sample_db) \<and>
   (\<exists>new d'. create_user sample_hash not_null sample_db
                \<lparr>c_email = ''c@x.com'', c_username = ''carol'', c_password = ''pw123''\<rparr>
                = (Inr new, d') \<and>
      tbl_users d' = [alice, bob, new] \<and> email new = ''c@x.com'' \<and>
      username new = ''carol'' \<and> hashed_password new = ''hash:pw123'' \<and> is_active new)"
proof -
  let ?dup = "\<lparr>c_email = ''a@x.com'', c_username = ''alice2'', c_password = ''pw123''\<rparr>"
  let ?carol = "\<lparr>c_email = ''c@x.com'', c_username = ''carol'', c_password = ''pw123''\<rparr>"
  have a: "alice \<in> set (tbl_users sample_db)" "email alice = ''a@x.com''"
    by (simp_all add: sample_defs)
  have free: "\<forall>v \<in> set (tbl_users sample_db). email v \<noteq> ''c@x.com'' \<and> username v \<noteq> ''carol''"
    by (simp add: sample_defs)
  have users: "tbl_users sample_db = [alice, bob]" by (simp add: sample_db_def)
  from create_user_unique [of alice sample_db ?dup sample_hash not_null] a
  have dup: "create_user sample_hash not_null sample_db ?dup
      = (Inl (HTTPException 400 ''Email already registered''), sample_db)"
    by simp
  from create_user_unique [of alice sample_db ?carol sample_hash not_null] sample_db_ok free
  obtain new d' where "create_user sample_hash not_null sample_db ?carol = (Inr new, d')"
    and "tbl_users d' = tbl_users sample_db @ [new]"
    and "email new = ''c@x.com''" "username new = ''carol''"
    and "hashed_password new = sample_hash ''pw123''" "is_active new"
    by auto
  with a dup sample_db_ok free users show ?thesis
    by (auto simp: sample_hash_def list_all_iff)
qed

section \<open>Listing with offset and limit\<close>

lemma crowded_owned:
  "filter (\<lambda>n. owner_id n = user_id alice) (tbl_notes crowded_db) = map alice_note [1..<151]"
proof -
  have "filter (\<lambda>n. owner_id n = 1) (map alice_note xs) = map alice_note xs" for xs
    by (induction xs) (simp_all add: alice_note_def)
  then show ?thesis
    by (simp add: crowded_db_def alice_def note3_def)
qed

lemma read_user_notes_rejects:
  assumes "skip < 0 \<or> limit < 1 \<or> 1000 < limit"
  shows "read_user_notes d skip limit (Some u) = Inl RequestValidationError"
  using assms
  by (auto simp: read_user_notes_def query_ok_def get_current_active_user_def)

lemma read_public_notes_rejects:
  assumes "skip < 0 \<or> limit < 1 \<or> 1000 < limit"
  shows "read_public_notes d skip limit = Inl RequestValidationError"
  using assms
  by (auto simp: read_public_notes_def query_ok_def)

lemma in_range:
  assumes "0 \<le> skip" and "skip < 2 ^ 63" and "1 \<le> limit" and "limit \<le> 1000"
  shows "int (nat skip) \<le> int64_max \<and> int (nat limit) \<le> int64_max"
  using assms by (simp add: int64_max_def)

lemma read_user_notes_page:
  assumes "0 \<le> skip" and "skip < 2 ^ 63" and "1 \<le> limit" and "limit \<le> 1000"
  shows "read_user_notes d skip limit (Some u) =
           Inr (take (nat limit) (drop (nat skip)
                  (filter (\<lambda>n. owner_id n = user_id u) (tbl_notes d))))"
proof -
  from assms have "query_ok skip limit" by (simp add: query_ok_def)
  moreover from assms have "int (nat skip) \<le> int64_max \<and> int (nat limit) \<le> int64_max"
    by (rule in_range)
  ultimately show ?thesis
    by (simp add: read_user_notes_def get_current_active_user_def get_user_notes_def)
qed

lemma read_public_notes_page:
  assumes "0 \<le> skip" and "skip < 2 ^ 63" and "1 \<le> limit" and "limit \<le> 1000"
  shows "read_public_notes d skip limit =
           Inr (take (nat limit) (drop (nat skip)
                  (filter (\<lambda>n. is_public n = Some True) (tbl_notes d))))"
proof -
  from assms have "query_ok skip limit" by (simp add: query_ok_def)
  moreover from assms have "int (nat skip) \<le> int64_max \<and> int (nat limit) \<le> int64_max"
    by (rule in_range)
  ultimately show ?thesis
    by (simp add: read_public_notes_def get_public_notes_def)
qed

lemma read_notes_out_of_range:
  assumes "2 ^ 63 \<le> skip" and "1 \<le> limit" and "limit \<le> 1000"
  shows "read_user_notes d skip limit (Some u) = Inl InternalServerError \<and>
         read_public_notes d skip limit = Inl InternalServerError"
proof -
  from assms have "query_ok skip limit" by (simp add: query_ok_def)
  moreover from assms(1) have "\<not> int (nat skip) \<le> int64_max"
    by (simp add: int64_max_def)
  ultimately show ?thesis
    by (simp add: read_user_notes_def read_public_notes_def get_current_active_user_def
        get_user_notes_def get_public_notes_def)
qed

text \<open>
  C9. The pagination contract of the two list endpoints, for every \<^verbatim>\<open>skip\<close> and \<^verbatim>\<open>limit\<close>.
  A request with a negative \<^verbatim>\<open>skip\<close>, a \<^verbatim>\<open>limit\<close> below 1 or a \<^verbatim>\<open>limit\<close> above 1000 is
  rejected by validation before the store is touched; in particular \<^verbatim>\<open>limit=0\<close> and
  \<^verbatim>\<open>limit=1001\<close> are. A request within the bounds, with a \<^verbatim>\<open>skip\<close> that the store can take
  as an offset, is answered with the page: of the requester's notes (of the public notes,
  for the public list) in storage order, the first \<^verbatim>\<open>skip\<close> are dropped and at most
  \<^verbatim>\<open>limit\<close> of the rest are returned. The owned list without identity is refused. A
  \<^verbatim>\<open>skip\<close> of 2^63 or more passes validation and fails in the store. For a user who owns
  150 notes, the page at offset 0 with limit 100 has 100 notes, the page at offset 100 with
  limit 100 has the remaining 50, and the two pages one after the other are the user's
  notes in storage order.
\<close>

theorem list_pagination:
  "(skip < 0 \<or> limit < 1 \<or> 1000 < limit \<longrightarrow>
      read_user_notes d skip limit (Some u) = Inl RequestValidationError \<and>
      read_public_notes d skip limit = Inl RequestValidationError) \<and>
   (0 \<le> skip \<and> skip < 2 ^ 63 \<and> 1 \<le> limit \<and> limit \<le> 1000 \<longrightarrow>
      read_user_notes d skip limit (Some u) =
        Inr (take (nat limit) (drop (nat skip)
               (filter (\<lambda>n. owner_id n = user_id u) (tbl_notes d)))) \<and>
      read_public_notes d skip limit =
        Inr (take (nat limit) (drop (nat skip)
               (filter (\<lambda>n. is_public n = Some True) (tbl_notes d))))) \<and>
   (2 ^ 63 \<le> skip \<and> 1 \<le> limit \<and> limit \<le> 1000 \<longrightarrow>
      read_user_notes d skip limit (Some u) = Inl InternalServerError \<and>
      read_public_notes d skip limit = Inl InternalServerError) \<and>
   read_user_notes d skip limit None = Inl Unauthenticated \<and>
   read_user_notes d skip 0 (Some u) = Inl RequestValidationError \<and>
   read_user_notes d skip 1001 (Some u) = Inl RequestValidationError \<and>
   read_public_notes d skip 0 = Inl RequestValidationError \<and>
   read_public_notes d skip 1001 = Inl RequestValidationError \<and>
   (skip < 0 \<longrightarrow> read_user_notes d skip limit (Some u) = Inl RequestValidationError \<and>
                read_public_notes d skip limit = Inl RequestValidationError) \<and>
   (length (filter (\<lambda>n. owner_id n = user_id u) (tbl_notes d)) = 150 \<longrightarrow>
      (\<exists>p1 p2. read_user_notes d 0 100 (Some u) = Inr p1 \<and> length p1 = 100 \<and>
                read_user_notes d 100 100 (Some u) = Inr p2 \<and> length p2 = 50 \<and>
                p1 @ p2 = filter (\<lambda>n. owner_id n = user_id u) (tbl_notes d)))"
proof -
  have general: "read_user_notes d skip limit (Some u) = Inl RequestValidationError \<and>
      read_public_notes d skip limit = Inl RequestValidationError"
    if "skip < 0 \<or> limit < 1 \<or> 1000 < limit"
    using that by (simp add: read_user_notes_rejects read_public_notes_rejects)
  have page: "read_user_notes d skip limit (Some u) =
        Inr (take (nat limit) (drop (nat skip)
               (filter (\<lambda>n. owner_id n = user_id u) (tbl_notes d)))) \<and>
      read_public_notes d skip limit =
        Inr (take (nat limit) (drop (nat skip)
               (filter (\<lambda>n. is_public n = Some True) (tbl_notes d))))"
    if "0 \<le> skip \<and> skip < 2 ^ 63 \<and> 1 \<le> limit \<and> limit \<le> 1000"
    using that by (simp add: read_user_notes_page read_public_notes_page)
  have beyond: "read_user_notes d skip limit (Some u) = Inl InternalServerError \<and>
      read_public_notes d skip limit = Inl InternalServerError"
    if "2 ^ 63 \<le> skip \<and> 1 \<le> limit \<and> limit \<le> 1000"
    using that by (intro read_notes_out_of_range) simp_all
  have anonymous: "read_user_notes d skip limit None = Inl Unauthenticated"
    by (simp add: read_user_notes_def get_current_active_user_def)
  have reject: "read_user_notes d skip 0 (Some u) = Inl RequestValidationError"
    "read_user_notes d skip 1001 (Some u) = Inl RequestValidationError"
    "read_public_notes d skip 0 = Inl RequestValidationError"
    "read_public_notes d skip 1001 = Inl RequestValidationError"
    by (simp_all add: read_user_notes_rejects read_public_notes_rejects)
  have negative: "read_user_notes d skip limit (Some u) = Inl RequestValidationError \<and>
      read_public_notes d skip limit = Inl RequestValidationError" if "skip < 0"
    using that by (simp add: read_user_notes_rejects read_public_notes_rejects)
  have pages: "\<exists>p1 p2. read_user_notes d 0 100 (Some u) = Inr p1 \<and> length p1 = 100 \<and>
                read_user_notes d 100 100 (Some u) = Inr p2 \<and> length p2 = 50 \<and>
                p1 @ p2 = filter (\<lambda>n. owner_id n = user_id u) (tbl_notes d)"
    if len: "length (filter (\<lambda>n. owner_id n = user_id u) (tbl_notes d)) = 150"
  proof -
    let ?own = "filter (\<lambda>n. owner_id n = user_id u) (tbl_notes d)"
    have "read_user_notes d 0 100 (Some u) = Inr (take (nat 100) (drop (nat 0) ?own))"
      by (rule read_user_notes_page) simp_all
    then have p1: "read_user_notes d 0 100 (Some u) = Inr (take 100 ?own)"
      by simp
    have "read_user_notes d 100 100 (Some u) = Inr (take (nat 100) (drop (nat 100) ?own))"
      by (rule read_user_notes_page) simp_all
    moreover have "take 100 (drop 100 ?own) = drop 100 ?own"
      using len by simp
    ultimately have p2: "read_user_notes d 100 100 (Some u) = Inr (drop 100 ?own)"
      by simp
    have "length (take 100 ?own) = 100" and "length (drop 100 ?own) = 50"
      using len by simp_all
    moreover have "take 100 ?own @ drop 100 ?own = ?own"
      by (rule append_take_drop_id)
    ultimately show ?thesis using p1 p2 by blast
  qed
  from general page beyond anonymous reject negative pages show ?thesis
    by (intro conjI impI) blast+
qed

text \<open>
  On the store where alice owns 150 notes: the two pages of the claim, the rejected
  bounds (also a limit of 5000 and a limit of -5), and a request for the last two notes.
  On the sample store: the second note of alice as a page of one, and the public list,
  which holds that note alone and needs no identity.
\<close>

theorem list_pagination_witness:
  "length (filter (\<lambda>n. owner_id n = user_id alice) (tbl_notes crowded_db)) = 150 \<and>
   length (tbl_notes crowded_db) = 151 \<and> (-1 :: int) < 0 \<and>
   read_user_notes crowded_db (-1) 10 (Some alice) = Inl RequestValidationError \<and>
   read_user_notes crowded_db 0 0 (Some alice) = Inl RequestValidationError \<and>
   read_user_notes crowded_db 0 1001 (Some alice) = Inl RequestValidationError \<and>
   read_user_notes crowded_db 0 5000 (Some alice) = Inl RequestValidationError \<and>
   read_user_notes crowded_db 0 (-5) (Some alice) = Inl RequestValidationError \<and>
   read_public_notes crowded_db 0 5000 = Inl RequestValidationError \<and>
   (\<exists>p1 p2. read_user_notes crowded_db 0 100 (Some alice) = Inr p1 \<and> length p1 = 100 \<and>
             read_user_notes crowded_db 100 100 (Some alice) = Inr p2 \<and> length p2 = 50 \<and>
             p1 @ p2 = map alice_note [1..<151]) \<and>
   read_user_notes crowded_db 148 7 (Some alice) = Inr [alice_note 149, alice_note 150] \<and>
   read_user_notes sample_db 1 1 (Some alice) = Inr [note2] \<and>
   read_user_notes sample_db 0 1 (Some alice) = Inr [note1] \<and>
   read_public_notes sample_db 0 10 = Inr [note2] \<and>
   read_public_notes sample_db 1 10 = Inr [] \<and>
   read_user_notes sample_db (2 ^ 63) 10 (Some alice) = Inl InternalServerError"
proof -
  have len: "length (filter (\<lambda>n. owner_id n = user_id alice) (tbl_notes crowded_db)) = 150"
    by (simp add: crowded_owned)
  have all: "length (tbl_notes crowded_db) = 151"
    by (simp add: crowded_db_def)
  have neg: "(-1 :: int) < 0" by simp
  from list_pagination [of "-1" 10 crowded_db alice] neg
  have r1: "read_user_notes crowded_db (-1) 10 (Some alice) = Inl RequestValidationError"
    by blast
  from list_pagination [of 0 10 crowded_db alice]
  have r2: "read_user_notes crowded_db 0 0 (Some alice) = Inl RequestValidationError"
    and r3: "read_user_notes crowded_db 0 1001 (Some alice) = Inl RequestValidationError"
    by blast+
  from list_pagination [of 0 5000 crowded_db alice]
  have r4: "read_user_notes crowded_db 0 5000 (Some alice) = Inl RequestValidationError"
    and r5: "read_public_notes crowded_db 0 5000 = Inl RequestValidationError"
    by simp_all
  from list_pagination [of 0 "-5" crowded_db alice]
  have r6: "read_user_notes crowded_db 0 (-5) (Some alice) = Inl RequestValidationError"
    by simp
  from list_pagination [of 0 10 crowded_db alice] len
  have pages: "\<exists>p1 p2. read_user_notes crowded_db 0 100 (Some alice) = Inr p1 \<and> length p1 = 100 \<and>
             read_user_notes crowded_db 100 100 (Some alice) = Inr p2 \<and> length p2 = 50 \<and>
             p1 @ p2 = map alice_note [1..<151]"
    unfolding crowded_owned by blast
  have "[1..<151] = [1..<149] @ [149, 150]"
    by (simp add: upt_rec [of 149] upt_rec [of 150] upt_rec [of 151]
        upt_add_eq_append [of 1 149 2, simplified])
  then have "drop 148 (map alice_note [1..<151]) = [alice_note 149, alice_note 150]"
    by simp
  moreover from list_pagination [of 148 7 crowded_db alice]
  have "read_user_notes crowded_db 148 7 (Some alice) =
      Inr (take (nat 7) (drop (nat 148)
        (filter (\<lambda>n. owner_id n = user_id alice) (tbl_notes crowded_db))))"
    by simp
  ultimately have tail: "read_user_notes crowded_db 148 7 (Some alice)
      = Inr [alice_note 149, alice_note 150]"
    by (simp add: crowded_owned)
  from list_pagination [of 1 1 sample_db alice]
  have s1: "read_user_notes sample_db 1 1 (Some alice) = Inr [note2]"
    by (simp add: sample_defs)
  from list_pagination [of 0 1 sample_db alice]
  have s2: "read_user_notes sample_db 0 1 (Some alice) = Inr [note1]"
    by (simp add: sample_defs)
  from list_pagination [of 0 10 sample_db alice]
  have s3: "read_public_notes sample_db 0 10 = Inr [note2]"
    by (simp add: sample_defs)
  from list_pagination [of 1 10 sample_db alice]
  have s4: "read_public_notes sample_db 1 10 = Inr []"
    by (simp add: sample_defs)
  from list_pagination [of "2 ^ 63" 10 sample_db alice]
  have s5: "read_user_notes sample_db (2 ^ 63) 10 (Some alice) = Inl InternalServerError"
    by simp
  from len all neg r1 r2 r3 r4 r5 r6 pages tail s1 s2 s3 s4 s5 show ?thesis
    by (intro conjI)
qed

section \<open>The owner of a note never changes\<close>

lemma create_user_keeps_notes:
  assumes "create_user gph note_ok d u = (r, d')"
  shows "tbl_notes d' = tbl_notes d"
  using assms
  by (auto simp: create_user_def commit_def Let_def split: if_splits)

lemma create_note_result:
  assumes "create_note note_ok d n uid = (Inr new, d')"
  shows "tbl_notes d' = tbl_notes d @ [new] \<and> owner_id new = uid \<and>
         note_id new = notes_id_seq d \<and> notes_id_seq d' = notes_id_seq d + 1 \<and>
         tbl_users d' = tbl_users d \<and> users_id_seq d' = users_id_seq d \<and>
         constraints note_ok d'"
  using assms
  by (auto simp: create_note_def commit_def Let_def split: if_splits)

lemma create_note_failed:
  assumes "create_note note_ok d n uid = (Inl e, d')"
  shows "d' = d"
  using assms
  by (auto simp: create_note_def commit_def Let_def split: if_splits)

lemma update_note_result:
  assumes "update_note note_ok d nid upd uid = (r, d')"
  shows "d' = d \<or>
         (constraints note_ok d' \<and> tbl_users d' = tbl_users d \<and>
          users_id_seq d' = users_id_seq d \<and> notes_id_seq d' = notes_id_seq d \<and>
          (\<exists>k. tbl_notes d' = map (\<lambda>r. if note_id r = k then setattrs upd r else r) (tbl_notes d)))"
  using assms
  by (auto simp: update_note_def commit_def split: option.splits if_splits)

lemma update_note_keeps_owners:
  assumes "update_note note_ok d nid upd uid = (r, d')"
  shows "map note_id (tbl_notes d') = map note_id (tbl_notes d) \<and>
         map owner_id (tbl_notes d') = map owner_id (tbl_notes d)"
  using update_note_result [OF assms]
  by (auto simp: map_update_note_id map_update_owner_id simp del: map_map)

lemma delete_note_result:
  assumes "delete_note note_ok d nid uid = (r, d')"
  shows "d' = d \<or>
         (constraints note_ok d' \<and> tbl_users d' = tbl_users d \<and>
          users_id_seq d' = users_id_seq d \<and> notes_id_seq d' = notes_id_seq d \<and>
          (\<exists>k. tbl_notes d' = filter (\<lambda>r. note_id r \<noteq> k) (tbl_notes d)))"
  using assms
  by (auto simp: delete_note_def commit_def split: option.splits if_splits)

lemma update_user_note_keeps_owners:
  assumes "update_user_note note_ok d nid upd cred = (r, d')"
  shows "map note_id (tbl_notes d') = map note_id (tbl_notes d) \<and>
         map owner_id (tbl_notes d') = map owner_id (tbl_notes d)"
proof (cases cred)
  case None
  with assms show ?thesis
    by (simp add: update_user_note_def get_current_active_user_def)
next
  case (Some cu)
  with assms have "update_note note_ok d nid upd (user_id cu) = (r, d')"
    by (simp add: update_user_note_def get_current_active_user_def)
  then show ?thesis by (rule update_note_keeps_owners)
qed

lemma delete_user_note_subset:
  assumes "delete_user_note note_ok d nid cred = (r, d')"
  shows "set (tbl_notes d') \<subseteq> set (tbl_notes d)"
proof (cases cred)
  case None
  with assms show ?thesis
    by (simp add: delete_user_note_def get_current_active_user_def)
next
  case (Some cu)
  obtain r0 d0 where run: "delete_note note_ok d nid (user_id cu) = (r0, d0)"
    by (cases "delete_note note_ok d nid (user_id cu)")
  with assms Some have "d' = d0"
    by (auto simp: delete_user_note_def get_current_active_user_def split: sum.splits)
  with delete_note_result [OF run] show ?thesis by auto
qed

lemma same_id_owner:
  assumes ids: "map note_id ys = map note_id xs" and owners: "map owner_id ys = map owner_id xs"
    and m: "m \<in> set ys"
  shows "\<exists>m0 \<in> set xs. note_id m0 = note_id m \<and> owner_id m0 = owner_id m"
proof -
  from m obtain i where i: "i < length ys" "ys ! i = m"
    by (auto simp: in_set_conv_nth)
  from ids have len: "length xs = length ys"
    by (metis length_map)
  with i have "xs ! i \<in> set xs" by simp
  moreover have "note_id (xs ! i) = note_id m"
    using ids i len by (metis nth_map)
  moreover have "owner_id (xs ! i) = owner_id m"
    using owners i len by (metis nth_map)
  ultimately show ?thesis by blast
qed

lemma history_owner_log:
  assumes "history gph note_ok d cr"
  shows "\<forall>m \<in> set (tbl_notes d). cr (note_id m) = Some (owner_id m)"
  using assms
proof (induction rule: history.induct)
  case started
  show ?case by (simp add: empty_db_def)
next
  case (registered d cr u r d')
  then show ?case by (simp add: create_user_keeps_notes)
next
  case (created d cr n cu new d')
  from created.hyps(2) have "create_note note_ok d n (user_id cu) = (Inr new, d')"
    by (simp add: create_user_note_def get_current_active_user_def)
  then have new: "tbl_notes d' = tbl_notes d @ [new]" "owner_id new = user_id cu"
    and "constraints note_ok d'"
    by (simp_all add: create_note_result)
  then have "note_id new \<notin> note_id ` set (tbl_notes d)"
    by (simp add: constraints_def)
  then have "\<forall>m \<in> set (tbl_notes d). note_id m \<noteq> note_id new"
    by (metis imageI)
  with created.IH new show ?case by simp
next
  case (not_created d cr n cred e d')
  have "d' = d"
  proof (cases cred)
    case None
    with not_created.hyps(2) show ?thesis
      by (simp add: create_user_note_def get_current_active_user_def)
  next
    case (Some cu)
    with not_created.hyps(2) have "create_note note_ok d n (user_id cu) = (Inl e, d')"
      by (simp add: create_user_note_def get_current_active_user_def)
    then show ?thesis by (rule create_note_failed)
  qed
  with not_created.IH show ?case by simp
next
  case (updated d cr nid upd cred r d')
  show ?case
  proof
    fix m
    assume "m \<in> set (tbl_notes d')"
    with update_user_note_keeps_owners [OF updated.hyps(2)]
    obtain m0 where "m0 \<in> set (tbl_notes d)" "note_id m0 = note_id m" "owner_id m0 = owner_id m"
      using same_id_owner [of "tbl_notes d'" "tbl_notes d" m] by blast
    with updated.IH show "cr (note_id m) = Some (owner_id m)" by force
  qed
next
  case (deleted d cr nid cred r d')
  from delete_user_note_subset [OF deleted.hyps(2)] deleted.IH show ?case by blast
qed

text \<open>Every reachable state satisfies the constraints of the schema and of the sequences.\<close>

lemma history_db_ok:
  assumes "history gph note_ok d cr"
  shows "db_ok note_ok d"
  using assms
proof (induction rule: history.induct)
  case started
  show ?case by (simp add: db_ok_def constraints_def seq_ok_def empty_db_def)
next
  case (registered d cr u r d')
  from registered.hyps(2) registered.IH show ?case
    by (fastforce simp: create_user_def commit_def Let_def db_ok_def seq_ok_def list_all_iff
        split: if_splits)
next
  case (created d cr n cu new d')
  from created.hyps(2) have "create_note note_ok d n (user_id cu) = (Inr new, d')"
    by (simp add: create_user_note_def get_current_active_user_def)
  from create_note_result [OF this] created.IH show ?case
    by (fastforce simp: db_ok_def seq_ok_def list_all_iff)
next
  case (not_created d cr n cred e d')
  have "d' = d"
  proof (cases cred)
    case None
    with not_created.hyps(2) show ?thesis
      by (simp add: create_user_note_def get_current_active_user_def)
  next
    case (Some cu)
    with not_created.hyps(2) have "create_note note_ok d n (user_id cu) = (Inl e, d')"
      by (simp add: create_user_note_def get_current_active_user_def)
    then show ?thesis by (rule create_note_failed)
  qed
  with not_created.IH show ?case by simp
next
  case (updated d cr nid upd cred r d')
  show ?case
  proof (cases cred)
    case None
    with updated show ?thesis
      by (simp add: update_user_note_def get_current_active_user_def)
  next
    case (Some cu)
    with updated.hyps(2) have "update_note note_ok d nid upd (user_id cu) = (r, d')"
      by (simp add: update_user_note_def get_current_active_user_def)
    from update_note_result [OF this] updated.IH show ?thesis
      by (auto simp: db_ok_def seq_ok_def list_all_iff setattrs_note_id)
  qed
next
  case (deleted d cr nid cred r d')
  show ?case
  proof (cases cred)
    case None
    with deleted show ?thesis
      by (simp add: delete_user_note_def get_current_active_user_def)
  next
    case (Some cu)
    obtain r0 d0 where run: "delete_note note_ok d nid (user_id cu) = (r0, d0)"
      by (cases "delete_note note_ok d nid (user_id cu)")
    with deleted.hyps(2) Some have "d' = d0"
      by (auto simp: delete_user_note_def get_current_active_user_def split: sum.splits)
    with delete_note_result [OF run] deleted.IH show ?thesis
      by (auto simp: db_ok_def seq_ok_def list_all_iff)
  qed
qed

text \<open>
  The sample store is reachable: alice and bob register, alice creates her two notes and
  bob creates his.
\<close>

lemma sample_history:
  "history sample_hash not_null sample_db ((\<lambda>_. None)(1 \<mapsto> 1, 2 \<mapsto> 1, 3 \<mapsto> 2))"
proof -
  let ?h = "history sample_hash not_null"
  let ?d1 = "\<lparr>tbl_users = [alice], tbl_notes = [], users_id_seq = 2, notes_id_seq = 1\<rparr>"
  let ?d2 = "\<lparr>tbl_users = [alice, bob], tbl_notes = [], users_id_seq = 3, notes_id_seq = 1\<rparr>"
  let ?d3 = "\<lparr>tbl_users = [alice, bob], tbl_notes = [note1], users_id_seq = 3,
              notes_id_seq = 2\<rparr>"
  let ?d4 = "\<lparr>tbl_users = [alice, bob], tbl_notes = [note1, note2], users_id_seq = 3,
              notes_id_seq = 3\<rparr>"
  have "create_user sample_hash not_null empty_db
          \<lparr>c_email = ''a@x.com'', c_username = ''alice'', c_password = ''pw123''\<rparr>
        = (Inr alice, ?d1)"
    by (simp add: create_user_def get_user_by_email_def get_user_by_username_def commit_def
        constraints_def empty_db_def sample_hash_def alice_def Let_def)
  with history.started have "?h ?d1 (\<lambda>_. None)"
    by (rule history.registered)
  moreover have "create_user sample_hash not_null ?d1
          \<lparr>c_email = ''b@x.com'', c_username = ''bob'', c_password = ''pw456''\<rparr>
        = (Inr bob, ?d2)"
    by (simp add: create_user_def get_user_by_email_def get_user_by_username_def commit_def
        constraints_def sample_hash_def alice_def bob_def Let_def)
  ultimately have "?h ?d2 (\<lambda>_. None)"
    by (rule history.registered)
  moreover have "create_user_note not_null ?d2
          \<lparr>c_title = ''t'', c_content = ''c'', c_is_public = False\<rparr> (Some alice)
        = (Inr note1, ?d3)"
    by (simp add: create_user_note_def get_current_active_user_def create_note_def commit_def
        constraints_def sample_defs Let_def)
  ultimately have "?h ?d3 ((\<lambda>_. None)(note_id note1 \<mapsto> user_id alice))"
    by (rule history.created)
  moreover have "create_user_note not_null ?d3
          \<lparr>c_title = ''news'', c_content = ''hello'', c_is_public = True\<rparr> (Some alice)
        = (Inr note2, ?d4)"
    by (simp add: create_user_note_def get_current_active_user_def create_note_def commit_def
        constraints_def sample_defs Let_def)
  ultimately have "?h ?d4 ((\<lambda>_. None)(note_id note1 \<mapsto> user_id alice,
      note_id note2 \<mapsto> user_id alice))"
    by (rule history.created)
  moreover have "create_user_note not_null ?d4
          \<lparr>c_title = ''todo'', c_content = ''milk'', c_is_public = False\<rparr> (Some bob)
        = (Inr note3, sample_db)"
    by (simp add: create_user_note_def get_current_active_user_def create_note_def commit_def
        constraints_def sample_defs Let_def)
  ultimately have "?h sample_db ((\<lambda>_. None)(note_id note1 \<mapsto> user_id alice,
      note_id note2 \<mapsto> user_id alice, note_id note3 \<mapsto> user_id bob))"
    by (rule history.created)
  then show ?thesis by (simp add: sample_defs)
qed

text \<open>
  C10. The fields an update can set are title, content and is_public, so an update leaves
  the id and the owner of every row as they were, whoever sends it and whatever it carries.
  Over all the states the service can reach, every note in the table is owned by the
  requester recorded for its id when it was created.
\<close>

theorem owner_never_changes:
  "(\<forall>r d'. update_user_note note_ok d nid upd cred = (r, d') \<longrightarrow>
      map note_id (tbl_notes d') = map note_id (tbl_notes d) \<and>
      map owner_id (tbl_notes d') = map owner_id (tbl_notes d)) \<and>
   owner_id (setattrs upd n) = owner_id n \<and>
   (history gph note_ok d cr \<longrightarrow>
      (\<forall>m \<in> set (tbl_notes d). cr (note_id m) = Some (owner_id m)))"
proof (intro conjI allI impI)
  fix r d'
  assume run: "update_user_note note_ok d nid upd cred = (r, d')"
  then show "map note_id (tbl_notes d') = map note_id (tbl_notes d)"
    by (simp add: update_user_note_keeps_owners)
  from run show "map owner_id (tbl_notes d') = map owner_id (tbl_notes d)"
    by (simp add: update_user_note_keeps_owners)
next
  show "owner_id (setattrs upd n) = owner_id n"
    by (rule setattrs_owner_id)
next
  assume "history gph note_ok d cr"
  then show "\<forall>m \<in> set (tbl_notes d). cr (note_id m) = Some (owner_id m)"
    by (rule history_owner_log)
qed

theorem owner_never_changes_witness:
  "history sample_hash not_null sample_db ((\<lambda>_. None)(1 \<mapsto> 1, 2 \<mapsto> 1, 3 \<mapsto> 2)) \<and>
   tbl_notes sample_db = [note1, note2, note3] \<and>
   list_all (\<lambda>m. ((\<lambda>_. None)(1 \<mapsto> 1, 2 \<mapsto> 1, 3 \<mapsto> 2)) (note_id m) = Some (owner_id m))
     (tbl_notes sample_db) \<and>
   map owner_id (tbl_notes (snd (update_user_note not_null sample_db 1
       \<lparr>u_title = Some (Some ''x''), u_content = None, u_is_public = Some (Some True)\<rparr>
       (Some alice)))) = [1, 1, 2]"
proof -
  let ?upd = "\<lparr>u_title = Some (Some ''x''), u_content = None, u_is_public = Some (Some True)\<rparr>"
  let ?cr = "(\<lambda>_. None)(1 \<mapsto> 1, 2 \<mapsto> 1, 3 \<mapsto> (2 :: int))"
  note inst = owner_never_changes [of not_null sample_db 1 ?upd "Some alice" note1
      sample_hash ?cr]
  from inst sample_history
  have log: "\<forall>m \<in> set (tbl_notes sample_db). ?cr (note_id m) = Some (owner_id m)"
    by blast
  from inst have "map owner_id (tbl_notes (snd (update_user_note not_null sample_db 1 ?upd
      (Some alice)))) = map owner_id (tbl_notes sample_db)"
    by (metis prod.collapse)
  moreover have "map owner_id (tbl_notes sample_db) = [1, 1, 2]"
    and "tbl_notes sample_db = [note1, note2, note3]"
    by (simp_all add: sample_defs)
  ultimately show ?thesis
    using sample_history log by (simp add: list_all_iff)
qed

end
